theory Spec2Isabelle
  imports Complex_Main
begin

section \<open>JavaScript values and errors\<close>

text \<open>
  The values that reach the code under study: \<open>undefined\<close>, \<open>null\<close>, booleans, strings and
  plain objects (own enumerable string-keyed data properties in insertion order, prototype
  \<open>Object.prototype\<close>). Numbers, arrays, functions and symbols as attribute values are
  outside this value model.
\<close>

datatype jsval =
    JUndefined
  | JNull
  | JBool bool
  | JStr string
  | JObj "(string \<times> jsval) list"

datatype js_error = TypeError

type_synonym 'a js = "js_error + 'a"

definition js_bind :: "'a js \<Rightarrow> ('a \<Rightarrow> 'b js) \<Rightarrow> 'b js" where
  "js_bind m f = (case m of Inl e \<Rightarrow> Inl e | Inr x \<Rightarrow> f x)"

text \<open>Truthiness, as tested by \<open>||\<close>, \<open>!\<close> and \<open>if\<close>.\<close>

fun truthy :: "jsval \<Rightarrow> bool" where
  "truthy JUndefined = False"
| "truthy JNull = False"
| "truthy (JBool b) = b"
| "truthy (JStr s) = (s \<noteq> [])"
| "truthy (JObj ps) = True"

text \<open>
  Property read \<open>v.k\<close> for the attribute names the compiler reads (\<open>graphqlType\<close>, \<open>type\<close>,
  \<open>properties\<close>, \<open>items\<close>, \<open>required\<close>), none of which is defined on \<open>String.prototype\<close>,
  \<open>Boolean.prototype\<close> or \<open>Object.prototype\<close>: reading from \<open>undefined\<close> or \<open>null\<close> throws,
  a primitive has no such property, an object yields its own property or \<open>undefined\<close>.
\<close>

definition own :: "(string \<times> jsval) list \<Rightarrow> string \<Rightarrow> jsval" where
  "own ps k = (case map_of ps k of None \<Rightarrow> JUndefined | Some v \<Rightarrow> v)"

fun attr :: "jsval \<Rightarrow> string \<Rightarrow> jsval js" where
  "attr JUndefined k = Inl TypeError"
| "attr JNull k = Inl TypeError"
| "attr (JBool b) k = Inr JUndefined"
| "attr (JStr s) k = Inr JUndefined"
| "attr (JObj ps) k = Inr (own ps k)"

text \<open>
  Conversion of an object to a primitive. No property value of the model is callable, so an
  own \<open>toString\<close> property shadows \<open>Object.prototype.toString\<close> with a non-callable value
  and the conversion throws; otherwise the inherited method answers \<open>[object Object]\<close>.
\<close>

definition objToPrimitive :: "(string \<times> jsval) list \<Rightarrow> string js" where
  "objToPrimitive ps =
     (if ''toString'' \<in> fst ` set ps then Inl TypeError else Inr ''[object Object]'')"

text \<open>String conversion, as done by a template literal and by \<open>+\<close> with a string operand.\<close>

fun toString :: "jsval \<Rightarrow> string js" where
  "toString JUndefined = Inr ''undefined''"
| "toString JNull = Inr ''null''"
| "toString (JBool b) = Inr (if b then ''true'' else ''false'')"
| "toString (JStr s) = Inr s"
| "toString (JObj ps) = objToPrimitive ps"

text \<open>
  Loose equality \<open>v == lit\<close> against a string literal that is not numeric (the compiler
  compares with \<open>number\<close>, \<open>object\<close> and \<open>array\<close> only): a boolean is compared as a number
  with \<open>NaN\<close>, \<open>undefined\<close> and \<open>null\<close> equal only each other, an object is first converted
  to a primitive.
\<close>

fun looseEqStr :: "jsval \<Rightarrow> string \<Rightarrow> bool js" where
  "looseEqStr JUndefined lit = Inr False"
| "looseEqStr JNull lit = Inr False"
| "looseEqStr (JBool b) lit = Inr False"
| "looseEqStr (JStr s) lit = Inr (s = lit)"
| "looseEqStr (JObj ps) lit = js_bind (objToPrimitive ps) (\<lambda>s. Inr (s = lit))"

section \<open>Schema compiler: \<open>generateType\<close>\<close>

text \<open>\<open>c.toUpperCase()\<close> on one ASCII character.\<close>

definition toUpperCase :: "char \<Rightarrow> char" where
  "toUpperCase c =
     (if 97 \<le> (of_char c :: nat) \<and> (of_char c :: nat) \<le> 122
      then char_of ((of_char c :: nat) - 32) else c)"

text \<open>\<open>type.slice(0, 1).toUpperCase() + type.slice(1)\<close>\<close>

definition titlecase :: "string \<Rightarrow> string" where
  "titlecase s = map toUpperCase (take 1 s) @ drop 1 s"

text \<open>\<open>let type = field.graphqlType || field.type || "string"\<close>\<close>

definition initialType :: "jsval \<Rightarrow> jsval js" where
  "initialType field =
     js_bind (attr field ''graphqlType'') (\<lambda>g.
       if truthy g then Inr g
       else js_bind (attr field ''type'') (\<lambda>t.
         if truthy t then Inr t else Inr (JStr ''string'')))"

text \<open>
  \<open>if (["string", "boolean"].includes(type)) type = ...\<close>, then
  \<open>if (type == "number") type = "Int"\<close>
\<close>

definition baseType :: "jsval \<Rightarrow> jsval js" where
  "baseType type0 =
     (let type1 = (case type0 of
                     JStr s \<Rightarrow> if s = ''string'' \<or> s = ''boolean'' then JStr (titlecase s) else type0
                   | _ \<Rightarrow> type0)
      in js_bind (looseEqStr type1 ''number'') (\<lambda>isNumber.
           Inr (if isNumber then JStr ''Int'' else type1)))"

text \<open>
  The two guards under the comment \<open>Skip not-well defined fields\<close>:
  \<open>type == "object" && !field.properties\<close> and \<open>type == "array" && !field.items\<close>.
  The right operand of \<open>&&\<close> is read only when the left one holds.
\<close>

definition guardMissing :: "jsval \<Rightarrow> string \<Rightarrow> jsval \<Rightarrow> string \<Rightarrow> bool js" where
  "guardMissing type1 kind field k =
     js_bind (looseEqStr type1 kind) (\<lambda>isKind.
       if isKind then js_bind (attr field k) (\<lambda>v. Inr (\<not> truthy v)) else Inr False)"

text \<open>
  \<open>if (field.type == "array") type = `[${type}]`; if (field.required) type += "!"\<close>:
  the text of the type as it is pushed.
\<close>

definition decorateType :: "jsval \<Rightarrow> jsval \<Rightarrow> string js" where
  "decorateType type1 field =
     js_bind (attr field ''type'') (\<lambda>ft.
     js_bind (looseEqStr ft ''array'') (\<lambda>isArray.
     js_bind (toString type1) (\<lambda>s.
     js_bind (attr field ''required'') (\<lambda>req.
       Inr ((if isArray then ''['' @ s @ '']'' else s) @ (if truthy req then ''!'' else ''''))))))"

text \<open>
  The callback of \<open>entries.forEach(([name, field], idx) => ...)\<close>: \<open>None\<close> when it
  returns without pushing, \<open>Some line\<close> for the line it pushes onto \<open>res\<close>.
\<close>

definition fieldCallback :: "nat \<Rightarrow> string \<Rightarrow> jsval \<Rightarrow> nat \<Rightarrow> string option js" where
  "fieldCallback entries_length name field idx =
     js_bind (initialType field) (\<lambda>type0.
     js_bind (baseType type0) (\<lambda>type1.
     js_bind (guardMissing type1 ''object'' field ''properties'') (\<lambda>skipObject.
       if skipObject then Inr None
       else js_bind (guardMissing type1 ''array'' field ''items'') (\<lambda>skipArray.
         if skipArray then Inr None
         else js_bind (decorateType type1 field) (\<lambda>type2.
           Inr (Some (''  '' @ name @ '': '' @ type2 @
                      (if int idx < int entries_length - 1 then '','' else ''''))))))))"

fun forEachEntry :: "nat \<Rightarrow> (string \<times> jsval) list \<Rightarrow> nat \<Rightarrow> string list \<Rightarrow> string list js" where
  "forEachEntry n [] idx res = Inr res"
| "forEachEntry n ((name, field) # rest) idx res =
     (case fieldCallback n name field idx of
        Inl e \<Rightarrow> Inl e
      | Inr None \<Rightarrow> forEachEntry n rest (Suc idx) res
      | Inr (Some line) \<Rightarrow> forEachEntry n rest (Suc idx) (res @ [line]))"

text \<open>\<open>res.join(sep)\<close>\<close>

fun join :: "string \<Rightarrow> string list \<Rightarrow> string" where
  "join sep [] = []"
| "join sep [x] = x"
| "join sep (x # y # ys) = x @ sep @ join sep (y # ys)"

text \<open>
  \<open>generateType(name, schema)\<close>. The second argument stands for \<open>schema.settings.fields\<close>:
  \<open>None\<close> when it is absent (falsy), \<open>Some entries\<close> for a field map whose
  \<open>Object.entries\<close> are \<open>entries\<close>. The line feed is the separator of \<open>res.join("\n")\<close>.
\<close>

definition generateType :: "string \<Rightarrow> (string \<times> jsval) list option \<Rightarrow> string js" where
  "generateType name fields =
     (let res = [''type '' @ name @ '' {''] in
      js_bind (case fields of
                 None \<Rightarrow> Inr res
               | Some entries \<Rightarrow> forEachEntry (length entries) entries 0 res) (\<lambda>res'.
        Inr (join [CHR 0x0A] (res' @ [''}'']))))"

text \<open>
  The type-name table of the specification: \<open>string\<close> and \<open>boolean\<close> are titlecased,
  \<open>number\<close> becomes \<open>Int\<close>, every other token passes through.
\<close>

definition typeName :: "string \<Rightarrow> string" where
  "typeName kind =
     (if kind = ''string'' then ''String''
      else if kind = ''boolean'' then ''Boolean''
      else if kind = ''number'' then ''Int''
      else kind)"

text \<open>
  Entries on which no step of the callback can throw: not \<open>undefined\<close> or \<open>null\<close>, and,
  for an object, \<open>graphqlType\<close> and \<open>type\<close> that are not objects themselves.
\<close>

definition primitive :: "jsval \<Rightarrow> bool" where
  "primitive v = (case v of JObj ps \<Rightarrow> False | _ \<Rightarrow> True)"

definition descriptorLike :: "jsval \<Rightarrow> bool" where
  "descriptorLike field =
     (case field of
        JUndefined \<Rightarrow> False
      | JNull \<Rightarrow> False
      | JObj ps \<Rightarrow> primitive (own ps ''graphqlType'') \<and> primitive (own ps ''type'')
      | _ \<Rightarrow> True)"

section \<open>Ordering engine: \<open>changeListPosition\<close> and \<open>changeCardPosition\<close>\<close>

text \<open>
  A list or a card as the store holds it. Positions are real numbers here; the rounding of
  double-precision arithmetic is not part of the model.
\<close>

record entity =
  entity_id :: string
  title :: string
  position :: real

text \<open>
  An array element is \<open>Some\<close> object or \<open>undefined\<close>; \<open>arr[i]\<close> outside the array is
  \<open>undefined\<close> as well.
\<close>

definition js_index :: "'a option list \<Rightarrow> int \<Rightarrow> 'a option" where
  "js_index arr i = (if 0 \<le> i \<and> i < int (length arr) then arr ! nat i else None)"

text \<open>
  \<open>arr.splice(start, deleteCount, ...items)\<close> for integer arguments: the start is taken
  from the end when negative and clamped to the array, the count is clamped to what is
  left. The pair is the array of removed elements and the array afterwards.
\<close>

definition actualStart :: "nat \<Rightarrow> int \<Rightarrow> nat" where
  "actualStart len start =
     nat (if start < 0 then max (int len + start) 0 else min start (int len))"

definition splice :: "'a list \<Rightarrow> int \<Rightarrow> int \<Rightarrow> 'a list \<Rightarrow> 'a list \<times> 'a list" where
  "splice arr start deleteCount items =
     (let len = length arr;
          first = actualStart len start;
          actualDeleteCount = nat (min (max deleteCount 0) (int len - int first))
      in (take actualDeleteCount (drop first arr),
          take first arr @ items @ drop (first + actualDeleteCount) arr))"

text \<open>
  An index of a move request is an integer or \<open>null\<close> (\<open>None\<close>); in arithmetic
  \<open>null\<close> counts as 0.
\<close>

definition indexNumber :: "int option \<Rightarrow> int" where
  "indexNumber i = (case i of None \<Rightarrow> 0 | Some n \<Rightarrow> n)"

text \<open>\<open>x.position\<close>, which throws when \<open>x\<close> is \<open>undefined\<close>.\<close>

definition positionOf :: "entity option \<Rightarrow> real js" where
  "positionOf x = (case x of None \<Rightarrow> Inl TypeError | Some e \<Rightarrow> Inr (position e))"

text \<open>The \<open>if\<close> chain of \<open>changeListPosition\<close> that assigns \<open>newPosition\<close>.\<close>

definition listNewPosition :: "entity option \<Rightarrow> entity option \<Rightarrow> real js" where
  "listNewPosition toPrev toNext =
     (if toNext = None then
        js_bind (positionOf toPrev) (\<lambda>p. Inr (of_int \<lceil>p + 1\<rceil>))
      else if toPrev = None then
        js_bind (positionOf toNext) (\<lambda>n. Inr (of_int \<lfloor>n - 1\<rfloor>))
      else
        js_bind (positionOf toNext) (\<lambda>n.
        js_bind (positionOf toPrev) (\<lambda>p. Inr ((n + p) / 2))))"

text \<open>The \<open>if\<close> chain of \<open>changeCardPosition\<close>, with its first branch for no neighbour.\<close>

definition cardNewPosition :: "entity option \<Rightarrow> entity option \<Rightarrow> real js" where
  "cardNewPosition toPrev toNext =
     (if toNext = None \<and> toPrev = None then Inr 1
      else if toNext = None then
        js_bind (positionOf toPrev) (\<lambda>p. Inr (of_int \<lceil>p + 1\<rceil>))
      else if toPrev = None then
        js_bind (positionOf toNext) (\<lambda>n. Inr (of_int \<lfloor>n - 1\<rfloor>))
      else
        js_bind (positionOf toNext) (\<lambda>n.
        js_bind (positionOf toPrev) (\<lambda>p. Inr ((n + p) / 2))))"

text \<open>
  What an action leaves behind: the position it computed and sent to the server
  (\<open>None\<close> when it computed none) and the array it stored, in which the moved object
  carries the new position.
\<close>

record moved =
  newPosition :: "real option"
  rows :: "entity option list"

text \<open>
  \<open>changeListPosition({ state, ... }, { fromIndex, toIndex })\<close> on
  \<open>arr = state.board.lists.rows\<close>. \<open>movedList\<close> stays \<open>undefined\<close> when \<open>fromIndex\<close> is
  \<open>null\<close> or addresses no element, and reading \<open>movedList.title\<close> for the debug message
  then throws, before anything is stored.
\<close>

definition changeListPosition :: "entity list \<Rightarrow> int option \<Rightarrow> int option \<Rightarrow> moved js" where
  "changeListPosition arr fromIndex toIndex =
     (let result0 = map Some arr;
          (movedList, result1) =
             (case fromIndex of
                None \<Rightarrow> (None, result0)
              | Some f \<Rightarrow> (js_index (fst (splice result0 f 1 [])) 0, snd (splice result0 f 1 [])));
          result =
             (case toIndex of
                None \<Rightarrow> result1
              | Some t \<Rightarrow> snd (splice result1 t 0 [movedList]));
          toPrev = js_index result (indexNumber toIndex - 1);
          toNext = js_index result (indexNumber toIndex + 1)
      in js_bind (listNewPosition toPrev toNext) (\<lambda>p.
           case movedList of
             None \<Rightarrow> Inl TypeError
           | Some m \<Rightarrow>
               Inr \<lparr>newPosition = Some p,
                    rows = (case toIndex of
                              None \<Rightarrow> result
                            | Some t \<Rightarrow> result[actualStart (length result1) t :=
                                                 Some (m\<lparr>position := p\<rparr>)])\<rparr>))"

text \<open>
  \<open>changeCardPosition({ state, ... }, { list, fromIndex, toIndex, card })\<close> on
  \<open>list.cards.rows\<close>, with \<open>card\<close> (here \<open>movedCard\<close>) an object that is not one of the
  remaining rows.
  With \<open>toIndex\<close> \<open>null\<close> (the first call of a move between lists) no position is
  computed.
\<close>

definition changeCardPosition ::
  "entity list \<Rightarrow> int option \<Rightarrow> int option \<Rightarrow> entity \<Rightarrow> moved js" where
  "changeCardPosition cards fromIndex toIndex movedCard =
     (let result0 = map Some cards;
          result1 =
             (case fromIndex of
                None \<Rightarrow> result0
              | Some f \<Rightarrow> snd (splice result0 f 1 []))
      in case toIndex of
           None \<Rightarrow> Inr \<lparr>newPosition = None, rows = result1\<rparr>
         | Some t \<Rightarrow>
             (let result = snd (splice result1 t 0 [Some movedCard]);
                  toPrev = js_index result (t - 1);
                  toNext = js_index result (t + 1)
              in js_bind (cardNewPosition toPrev toNext) (\<lambda>p.
                   Inr \<lparr>newPosition = Some p,
                        rows = result[actualStart (length result1) t :=
                                        Some (movedCard\<lparr>position := p\<rparr>)]\<rparr>)))"

section \<open>The ordering algorithm as the specification words it\<close>

text \<open>
  Step 1 of the specification: the moved entity leaves its source slot when \<open>fromIndex\<close>
  is not \<open>null\<close>. Step 2: \<open>prev\<close> is the sibling immediately before slot \<open>toIndex\<close> of
  the remaining sequence and \<open>next\<close> the one immediately after, each absent at the
  respective end.
\<close>

definition siblingsAfterRemoval :: "entity list \<Rightarrow> nat option \<Rightarrow> entity list" where
  "siblingsAfterRemoval siblings fromIdx =
     (case fromIdx of None \<Rightarrow> siblings | Some i \<Rightarrow> take i siblings @ drop (Suc i) siblings)"

definition prevNeighbour :: "entity list \<Rightarrow> nat \<Rightarrow> entity option" where
  "prevNeighbour rest j = (if 0 < j \<and> j \<le> length rest then Some (rest ! (j - 1)) else None)"

definition nextNeighbour :: "entity list \<Rightarrow> nat \<Rightarrow> entity option" where
  "nextNeighbour rest j = (if j < length rest then Some (rest ! j) else None)"

text \<open>An entity named by its id, for concrete boards.\<close>

definition ent :: "string \<Rightarrow> real \<Rightarrow> entity" where
  "ent i p = \<lparr>entity_id = i, title = i, position = p\<rparr>"

text \<open>
  The position formula of step 3 of the specification, applied to the neighbours that the
  entity in slot \<open>i\<close> already has: 1 when it is alone, past its predecessor at the tail,
  before its successor at the head, the mean of both otherwise.
\<close>

definition ownSlotPosition :: "entity list \<Rightarrow> nat \<Rightarrow> real" where
  "ownSlotPosition siblings i =
     (if length siblings = 1 then 1
      else if i = length siblings - 1 then of_int \<lceil>position (siblings ! (i - 1)) + 1\<rceil>
      else if i = 0 then of_int \<lfloor>position (siblings ! 1) - 1\<rfloor>
      else (position (siblings ! (i + 1)) + position (siblings ! (i - 1))) / 2)"

section \<open>Basic facts\<close>

lemma js_bind_Inr: "js_bind (Inr x) f = f x"
  by (simp add: js_bind_def)

lemma js_bind_Inl: "js_bind (Inl e) f = Inl e"
  by (simp add: js_bind_def)

lemma actualStart_nat: "j \<le> len \<Longrightarrow> actualStart len (int j) = j"
  by (simp add: actualStart_def)

lemma splice_remove:
  "i < length xs \<Longrightarrow> splice xs (int i) 1 [] = ([xs ! i], take i xs @ drop (Suc i) xs)"
proof -
  assume i: "i < length xs"
  then have "take (Suc 0) (drop i xs) = [xs ! i]"
    by (simp add: take_Suc_conv_app_nth hd_drop_conv_nth take_Suc)
  with i show ?thesis
    by (simp add: splice_def actualStart_nat Let_def)
qed

lemma splice_insert:
  "j \<le> length xs \<Longrightarrow> splice xs (int j) 0 [x] = ([], take j xs @ x # drop j xs)"
  by (simp add: splice_def actualStart_nat Let_def)

lemma js_index_prev:
  assumes "j \<le> length r"
  shows "js_index (take j r @ x # drop j r) (int j - 1) = (if 0 < j then r ! (j - 1) else None)"
proof (cases "0 < j")
  case True
  then have "nat (int j - 1) = j - 1" by arith
  moreover have "(take j r @ x # drop j r) ! (j - 1) = r ! (j - 1)"
    using True assms by (simp add: nth_append)
  ultimately show ?thesis using True assms by (simp add: js_index_def)
next
  case False
  then show ?thesis by (simp add: js_index_def)
qed

lemma js_index_next:
  assumes "j \<le> length r"
  shows "js_index (take j r @ x # drop j r) (int j + 1) = (if j < length r then r ! j else None)"
proof (cases "j < length r")
  case True
  have "nat (int j + 1) = Suc j" by arith
  moreover have "(take j r @ x # drop j r) ! (Suc j) = r ! j"
    using True by (simp add: nth_append)
  ultimately show ?thesis using True by (simp add: js_index_def)
next
  case False
  with assms have "j = length r" by simp
  then show ?thesis by (simp add: js_index_def)
qed

lemma result1_remove:
  "i < length arr \<Longrightarrow>
   snd (splice (map Some arr) (int i) 1 []) = map Some (siblingsAfterRemoval arr (Some i))"
  by (simp add: splice_remove siblingsAfterRemoval_def take_map drop_map)

lemma moved_remove:
  "i < length arr \<Longrightarrow> js_index (fst (splice (map Some arr) (int i) 1 [])) 0 = Some (arr ! i)"
  by (simp add: splice_remove js_index_def)

lemma toPrev_eq:
  "j \<le> length rest \<Longrightarrow>
   js_index (map Some (take j rest) @ x # map Some (drop j rest)) (int j - 1) = prevNeighbour rest j"
  using js_index_prev [of j "map Some rest" x] by (simp add: prevNeighbour_def take_map drop_map)

lemma toNext_eq:
  "j \<le> length rest \<Longrightarrow>
   js_index (map Some (take j rest) @ x # map Some (drop j rest)) (int j + 1) = nextNeighbour rest j"
  using js_index_next [of j "map Some rest" x] by (simp add: nextNeighbour_def take_map drop_map)

lemma insert_update:
  "j \<le> length r \<Longrightarrow>
   (map f (take j r) @ x # map f (drop j r))[j := y] = map f (take j r) @ y # map f (drop j r)"
  by (simp add: list_update_append)

lemma changeCardPosition_valid:
  assumes "case fromIdx of None \<Rightarrow> True | Some i \<Rightarrow> i < length cards"
    and "rest = siblingsAfterRemoval cards fromIdx"
    and "j \<le> length rest"
  shows "changeCardPosition cards (map_option int fromIdx) (Some (int j)) c =
           js_bind (cardNewPosition (prevNeighbour rest j) (nextNeighbour rest j)) (\<lambda>p.
             Inr \<lparr>newPosition = Some p,
                  rows = map Some (take j rest) @ Some (c\<lparr>position := p\<rparr>) # map Some (drop j rest)\<rparr>)"
proof (cases fromIdx)
  case None
  with assms show ?thesis
    by (simp add: changeCardPosition_def siblingsAfterRemoval_def Let_def splice_insert
        toPrev_eq toNext_eq actualStart_nat insert_update take_map drop_map)
next
  case (Some i)
  with assms show ?thesis
    by (simp add: changeCardPosition_def Let_def result1_remove splice_insert
        toPrev_eq toNext_eq actualStart_nat insert_update take_map drop_map)
qed

lemma changeListPosition_valid:
  assumes "i < length arr"
    and "rest = siblingsAfterRemoval arr (Some i)"
    and "j \<le> length rest"
  shows "changeListPosition arr (Some (int i)) (Some (int j)) =
           js_bind (listNewPosition (prevNeighbour rest j) (nextNeighbour rest j)) (\<lambda>p.
             Inr \<lparr>newPosition = Some p,
                  rows = map Some (take j rest) @ Some ((arr ! i)\<lparr>position := p\<rparr>) # map Some (drop j rest)\<rparr>)"
  using assms
  by (simp add: changeListPosition_def Let_def result1_remove moved_remove splice_insert
      toPrev_eq toNext_eq actualStart_nat insert_update take_map drop_map indexNumber_def)

lemma titlecase_string: "titlecase ''string'' = ''String''"
  by code_simp

lemma titlecase_boolean: "titlecase ''boolean'' = ''Boolean''"
  by code_simp

lemma baseType_JStr: "baseType (JStr s) = Inr (JStr (typeName s))"
  by (simp add: baseType_def typeName_def js_bind_Inr js_bind_Inl titlecase_string titlecase_boolean)

lemma typeName_object: "typeName s = ''object'' \<longleftrightarrow> s = ''object''"
  by (simp add: typeName_def)

lemma typeName_array: "typeName s = ''array'' \<longleftrightarrow> s = ''array''"
  by (simp add: typeName_def)

lemma primitive_looseEqStr: "primitive v \<Longrightarrow> \<exists>b. looseEqStr v lit = Inr b"
  by (cases v) (auto simp: primitive_def)

lemma primitive_toString: "primitive v \<Longrightarrow> \<exists>s. toString v = Inr s"
  by (cases v) (simp_all add: primitive_def)

lemma primitive_baseType: "primitive v \<Longrightarrow> \<exists>w. baseType v = Inr w \<and> primitive w"
  by (cases v) (simp_all add: primitive_def baseType_def js_bind_Inr)

lemma descriptorLike_attr: "descriptorLike field \<Longrightarrow> \<exists>v. attr field k = Inr v"
  by (cases field) (simp_all add: descriptorLike_def)

lemma descriptorLike_attr_type:
  "descriptorLike field \<Longrightarrow> \<exists>v. attr field ''type'' = Inr v \<and> primitive v"
  by (cases field) (simp_all add: descriptorLike_def primitive_def)

lemma descriptorLike_initialType:
  "descriptorLike field \<Longrightarrow> \<exists>v. initialType field = Inr v \<and> primitive v"
  by (cases field) (simp_all add: descriptorLike_def primitive_def initialType_def js_bind_Inr)

lemma guardMissing_total:
  assumes "primitive t" and "descriptorLike field"
  shows "\<exists>b. guardMissing t kind field k = Inr b"
proof -
  obtain b where b: "looseEqStr t kind = Inr b"
    using primitive_looseEqStr [OF assms(1)] by blast
  obtain v where v: "attr field k = Inr v"
    using descriptorLike_attr [OF assms(2)] by blast
  show ?thesis by (cases b) (auto simp: guardMissing_def b v js_bind_Inr)
qed

lemma decorateType_total:
  assumes "primitive t" and "descriptorLike field"
  shows "\<exists>s. decorateType t field = Inr s"
proof -
  obtain ft where ft: "attr field ''type'' = Inr ft" "primitive ft"
    using descriptorLike_attr_type [OF assms(2)] by blast
  obtain b where b: "looseEqStr ft ''array'' = Inr b"
    using primitive_looseEqStr [OF ft(2)] by blast
  obtain s where s: "toString t = Inr s"
    using primitive_toString [OF assms(1)] by blast
  obtain req where req: "attr field ''required'' = Inr req"
    using descriptorLike_attr [OF assms(2)] by blast
  show ?thesis by (simp add: decorateType_def ft(1) b s req js_bind_Inr)
qed

lemma fieldCallback_total:
  assumes "descriptorLike field"
  shows "\<exists>r. fieldCallback n name field idx = Inr r"
proof -
  obtain t0 where t0: "initialType field = Inr t0" "primitive t0"
    using descriptorLike_initialType [OF assms] by blast
  obtain t1 where t1: "baseType t0 = Inr t1" "primitive t1"
    using primitive_baseType [OF t0(2)] by blast
  obtain b1 where b1: "guardMissing t1 ''object'' field ''properties'' = Inr b1"
    using guardMissing_total [OF t1(2) assms] by blast
  obtain b2 where b2: "guardMissing t1 ''array'' field ''items'' = Inr b2"
    using guardMissing_total [OF t1(2) assms] by blast
  obtain s where s: "decorateType t1 field = Inr s"
    using decorateType_total [OF t1(2) assms] by blast
  show ?thesis by (simp add: fieldCallback_def t0(1) t1(1) b1 b2 s js_bind_Inr)
qed

lemma forEachEntry_total:
  "\<forall>field \<in> snd ` set entries. descriptorLike field \<Longrightarrow>
   \<exists>lines. forEachEntry n entries idx res = Inr (res @ lines) \<and> length lines \<le> length entries"
proof (induction entries arbitrary: idx res)
  case Nil
  then show ?case by simp
next
  case (Cons e entries)
  obtain name field where e: "e = (name, field)" by (cases e)
  with Cons.prems have d: "descriptorLike field" by simp
  from Cons.prems have rest: "\<forall>field \<in> snd ` set entries. descriptorLike field" by simp
  obtain r where r: "fieldCallback n name field idx = Inr r"
    using fieldCallback_total [OF d] by blast
  show ?case
  proof (cases r)
    case None
    obtain lines where "forEachEntry n entries (Suc idx) res = Inr (res @ lines)"
      "length lines \<le> length entries"
      using Cons.IH [OF rest] by blast
    with e r None show ?thesis by auto
  next
    case (Some line)
    obtain lines where "forEachEntry n entries (Suc idx) (res @ [line]) = Inr ((res @ [line]) @ lines)"
      "length lines \<le> length entries"
      using Cons.IH [OF rest] by blast
    with e r Some have "forEachEntry n (e # entries) idx res = Inr (res @ (line # lines))
        \<and> length (line # lines) \<le> length (e # entries)"
      by simp
    then show ?thesis by blast
  qed
qed

lemma cardNewPosition_cases:
  "cardNewPosition None None = Inr 1"
  "cardNewPosition (Some a) None = Inr (of_int \<lceil>position a + 1\<rceil>)"
  "cardNewPosition None (Some b) = Inr (of_int \<lfloor>position b - 1\<rfloor>)"
  "cardNewPosition (Some a) (Some b) = Inr ((position b + position a) / 2)"
  by (simp_all add: cardNewPosition_def positionOf_def js_bind_Inr)

lemma listNewPosition_cases:
  "listNewPosition None None = Inl TypeError"
  "listNewPosition (Some a) None = Inr (of_int \<lceil>position a + 1\<rceil>)"
  "listNewPosition None (Some b) = Inr (of_int \<lfloor>position b - 1\<rfloor>)"
  "listNewPosition (Some a) (Some b) = Inr ((position b + position a) / 2)"
  by (simp_all add: listNewPosition_def positionOf_def js_bind_Inr js_bind_Inl)

lemma cardNewPosition_total: "\<exists>p. cardNewPosition a b = Inr p"
  by (cases a; cases b) (blast intro: cardNewPosition_cases)+

lemma listNewPosition_total:
  "a \<noteq> None \<or> b \<noteq> None \<Longrightarrow> \<exists>p. listNewPosition a b = Inr p"
  by (cases a; cases b) (blast intro: listNewPosition_cases)+

lemma neighbour_exists:
  "rest \<noteq> [] \<Longrightarrow> j \<le> length rest \<Longrightarrow> prevNeighbour rest j \<noteq> None \<or> nextNeighbour rest j \<noteq> None"
  by (cases "j < length rest") (simp_all add: prevNeighbour_def nextNeighbour_def)

lemma length_siblingsAfterRemoval:
  "i < length siblings \<Longrightarrow> length (siblingsAfterRemoval siblings (Some i)) = length siblings - 1"
  by (simp add: siblingsAfterRemoval_def)

lemma prevNeighbour_own_slot:
  "i < length siblings \<Longrightarrow>
   prevNeighbour (siblingsAfterRemoval siblings (Some i)) i =
     (if 0 < i then Some (siblings ! (i - 1)) else None)"
  by (simp add: prevNeighbour_def siblingsAfterRemoval_def nth_append)

lemma nextNeighbour_own_slot:
  "i < length siblings \<Longrightarrow>
   nextNeighbour (siblingsAfterRemoval siblings (Some i)) i =
     (if i + 1 < length siblings then Some (siblings ! (i + 1)) else None)"
  by (auto simp: nextNeighbour_def siblingsAfterRemoval_def nth_append)

lemma rows_own_slot:
  assumes "i < length siblings"
  shows "map Some (take i (siblingsAfterRemoval siblings (Some i))) @ x #
           map Some (drop i (siblingsAfterRemoval siblings (Some i))) =
         (map Some siblings)[i := x]"
proof -
  have "(map Some siblings)[i := x] =
          take i (map Some siblings) @ x # drop (Suc i) (map Some siblings)"
    using assms by (simp add: upd_conv_take_nth_drop)
  moreover have "take i (siblingsAfterRemoval siblings (Some i)) = take i siblings"
    using assms by (simp add: siblingsAfterRemoval_def)
  moreover have "drop i (siblingsAfterRemoval siblings (Some i)) = drop (Suc i) siblings"
    using assms by (simp add: siblingsAfterRemoval_def)
  ultimately show ?thesis by (simp add: take_map drop_map)
qed

lemma cardNewPosition_own_slot:
  assumes "i < length siblings"
  shows "cardNewPosition (prevNeighbour (siblingsAfterRemoval siblings (Some i)) i)
           (nextNeighbour (siblingsAfterRemoval siblings (Some i)) i) =
         Inr (ownSlotPosition siblings i)"
proof -
  consider "length siblings = 1" | "1 < length siblings" "i = length siblings - 1"
    | "1 < length siblings" "i = 0" | "0 < i" "i + 1 < length siblings"
    using assms by linarith
  then show ?thesis
  proof cases
    case 1
    with assms have "i = 0" by simp
    with 1 assms show ?thesis
      by (simp add: prevNeighbour_own_slot nextNeighbour_own_slot ownSlotPosition_def
          cardNewPosition_cases)
  next
    case 2
    then have "0 < i" "\<not> i + 1 < length siblings" "length siblings \<noteq> 1" by auto
    with 2 assms show ?thesis
      by (simp add: prevNeighbour_own_slot nextNeighbour_own_slot ownSlotPosition_def
          cardNewPosition_cases)
  next
    case 3
    then have "i + 1 < length siblings" "length siblings \<noteq> 1" "i \<noteq> length siblings - 1"
      by auto
    with 3 assms show ?thesis
      by (simp add: prevNeighbour_own_slot nextNeighbour_own_slot ownSlotPosition_def
          cardNewPosition_cases)
  next
    case 4
    then have "length siblings \<noteq> 1" "i \<noteq> length siblings - 1" "i \<noteq> 0" by auto
    with 4 assms show ?thesis
      by (simp add: prevNeighbour_own_slot nextNeighbour_own_slot ownSlotPosition_def
          cardNewPosition_cases)
  qed
qed

lemma listNewPosition_own_slot:
  assumes "i < length siblings" and "2 \<le> length siblings"
  shows "listNewPosition (prevNeighbour (siblingsAfterRemoval siblings (Some i)) i)
           (nextNeighbour (siblingsAfterRemoval siblings (Some i)) i) =
         Inr (ownSlotPosition siblings i)"
proof -
  consider "i = length siblings - 1" | "i = 0" | "0 < i" "i + 1 < length siblings"
    using assms by linarith
  then show ?thesis
  proof cases
    case 1
    with assms have "0 < i" "\<not> i + 1 < length siblings" "length siblings \<noteq> 1" by auto
    with 1 assms show ?thesis
      by (simp add: prevNeighbour_own_slot nextNeighbour_own_slot ownSlotPosition_def
          listNewPosition_cases)
  next
    case 2
    with assms have "i + 1 < length siblings" "length siblings \<noteq> 1" "i \<noteq> length siblings - 1"
      by auto
    with 2 assms show ?thesis
      by (simp add: prevNeighbour_own_slot nextNeighbour_own_slot ownSlotPosition_def
          listNewPosition_cases)
  next
    case 3
    then have "length siblings \<noteq> 1" "i \<noteq> length siblings - 1" "i \<noteq> 0" by auto
    with 3 assms show ?thesis
      by (simp add: prevNeighbour_own_slot nextNeighbour_own_slot ownSlotPosition_def
          listNewPosition_cases)
  qed
qed





section \<open>Schema compiler: properties\<close>

text \<open>
  Claim C10. A field whose entry in the field map is a plain string, whatever the string,
  makes the callback push the line \<open>name: String\<close> with no \<open>!\<close>, followed by the
  separator only; the loop goes on with that line appended, and a field map of that one
  entry compiles to the type with that one line. So a field declared as the bare string
  \<open>number\<close> is emitted as \<open>String\<close>, not \<open>Int\<close>.
\<close>

theorem plain_string_entry_emits_String:
  "fieldCallback n name (JStr s) idx =
     Inr (Some (''  '' @ name @ '': String'' @ (if int idx < int n - 1 then '','' else '''')))
   \<and> forEachEntry n ((name, JStr s) # rest) idx res =
     forEachEntry n rest (Suc idx)
       (res @ [''  '' @ name @ '': String'' @ (if int idx < int n - 1 then '','' else '''')])
   \<and> generateType entity (Some [(name, JStr s)]) =
     Inr (''type '' @ entity @ '' {'' @ [CHR 0x0A] @ ''  '' @ name @ '': String'' @ [CHR 0x0A] @ ''}'')"
proof -
  have cb: "fieldCallback n name (JStr s) idx =
     Inr (Some (''  '' @ name @ '': String'' @ (if int idx < int n - 1 then '','' else '''')))"
    for n idx
    by (simp add: fieldCallback_def initialType_def baseType_JStr guardMissing_def
        decorateType_def js_bind_Inr typeName_def)
  have "generateType entity (Some [(name, JStr s)]) =
     Inr (''type '' @ entity @ '' {'' @ [CHR 0x0A] @ ''  '' @ name @ '': String'' @ [CHR 0x0A] @ ''}'')"
    by (simp add: generateType_def cb js_bind_Inr)
  with cb show ?thesis by simp
qed

text \<open>
  Claim C6, as amended. A descriptor of kind \<open>array\<close> with no \<open>items\<close> and no override type
  name (\<open>graphqlType\<close>) pushes no line, whatever its other attributes: the loop goes on
  with \<open>res\<close> unchanged.
\<close>

theorem array_without_items_is_skipped:
  assumes "own ps ''type'' = JStr ''array''"
    and "\<not> truthy (own ps ''items'')"
    and "\<not> truthy (own ps ''graphqlType'')"
  shows "fieldCallback n name (JObj ps) idx = Inr None
         \<and> forEachEntry n ((name, JObj ps) # rest) idx res = forEachEntry n rest (Suc idx) res"
proof -
  have "fieldCallback n name (JObj ps) idx = Inr None"
    using assms
    by (simp add: fieldCallback_def initialType_def baseType_JStr guardMissing_def
        js_bind_Inr typeName_def)
  then show ?thesis by simp
qed

theorem array_without_items_is_skipped_witness:
  "own [(''type'', JStr ''array''), (''required'', JBool True)] ''type'' = JStr ''array''
   \<and> \<not> truthy (own [(''type'', JStr ''array''), (''required'', JBool True)] ''items'')
   \<and> \<not> truthy (own [(''type'', JStr ''array''), (''required'', JBool True)] ''graphqlType'')
   \<and> fieldCallback 1 ''labels'' (JObj [(''type'', JStr ''array''), (''required'', JBool True)]) 0 = Inr None
   \<and> forEachEntry 1 [(''labels'', JObj [(''type'', JStr ''array''), (''required'', JBool True)])] 0
         [''type Board {''] = Inr [''type Board {'']"
  using array_without_items_is_skipped
    [where ps = "[(''type'', JStr ''array''), (''required'', JBool True)]" and n = 1
       and name = "''labels''" and idx = 0 and rest = "[]" and res = "[''type Board {'']"]
  by (simp add: own_def)

text \<open>
  Claim C6 as first stated also covers a descriptor with an override type name. There the
  override is what the guard compares with \<open>array\<close>, so the field is not skipped:
  \<open>{ type: "array", graphqlType: "String" }\<close> is emitted as \<open>[String]\<close>.
\<close>

theorem array_without_items_override_counterexample:
  "own [(''type'', JStr ''array''), (''graphqlType'', JStr ''String'')] ''type'' = JStr ''array''
   \<and> own [(''type'', JStr ''array''), (''graphqlType'', JStr ''String'')] ''items'' = JUndefined
   \<and> generateType ''Board''
         (Some [(''labels'', JObj [(''type'', JStr ''array''), (''graphqlType'', JStr ''String'')])]) =
       Inr (''type Board {'' @ [CHR 0x0A] @ ''  labels: [String]'' @ [CHR 0x0A] @ ''}'')"
  by code_simp

text \<open>
  Claim C2, as amended. For a descriptor of kind \<open>array\<close> with \<open>items\<close> present the
  emitted type is \<open>[T]\<close>, where \<open>T\<close> is the type name of the descriptor itself: the kind
  token \<open>array\<close> when there is no override type name, the override passed through the
  type-name table otherwise (unless the override is \<open>object\<close> and \<open>properties\<close> is missing,
  which skips the field). \<open>items\<close> is tested for presence and never read for a type.
\<close>

theorem array_wraps_own_type_name:
  assumes "own ps ''type'' = JStr ''array''"
    and "truthy (own ps ''items'')"
  shows "(\<not> truthy (own ps ''graphqlType'') \<longrightarrow>
            fieldCallback n name (JObj ps) idx =
              Inr (Some (''  '' @ name @ '': [array]'' @
                         (if truthy (own ps ''required'') then ''!'' else '''') @
                         (if int idx < int n - 1 then '','' else ''''))))
         \<and> (own ps ''graphqlType'' = JStr g \<and> g \<noteq> [] \<and>
            \<not> (g = ''object'' \<and> \<not> truthy (own ps ''properties'')) \<longrightarrow>
            fieldCallback n name (JObj ps) idx =
              Inr (Some (''  '' @ name @ '': ['' @ typeName g @ '']'' @
                         (if truthy (own ps ''required'') then ''!'' else '''') @
                         (if int idx < int n - 1 then '','' else ''''))))"
  using assms
  by (simp add: fieldCallback_def initialType_def baseType_JStr guardMissing_def
      decorateType_def js_bind_Inr typeName_object typeName_array)

theorem array_wraps_own_type_name_witness:
  "own [(''type'', JStr ''array''), (''items'', JStr ''string''), (''graphqlType'', JStr ''number'')] ''type'' = JStr ''array''
   \<and> truthy (own [(''type'', JStr ''array''), (''items'', JStr ''string''), (''graphqlType'', JStr ''number'')] ''items'')
   \<and> own [(''type'', JStr ''array''), (''items'', JStr ''string''), (''graphqlType'', JStr ''number'')] ''graphqlType'' = JStr ''number''
   \<and> fieldCallback 1 ''stars''
         (JObj [(''type'', JStr ''array''), (''items'', JStr ''string''), (''graphqlType'', JStr ''number'')]) 0 =
       Inr (Some ''  stars: [Int]'')
   \<and> own [(''type'', JStr ''array''), (''items'', JObj [(''type'', JStr ''string'')]), (''required'', JBool True)] ''type'' = JStr ''array''
   \<and> truthy (own [(''type'', JStr ''array''), (''items'', JObj [(''type'', JStr ''string'')]), (''required'', JBool True)] ''items'')
   \<and> \<not> truthy (own [(''type'', JStr ''array''), (''items'', JObj [(''type'', JStr ''string'')]), (''required'', JBool True)] ''graphqlType'')
   \<and> fieldCallback 2 ''labels''
         (JObj [(''type'', JStr ''array''), (''items'', JObj [(''type'', JStr ''string'')]), (''required'', JBool True)]) 0 =
       Inr (Some ''  labels: [array]!,'')"
  using array_wraps_own_type_name
    [where ps = "[(''type'', JStr ''array''), (''items'', JStr ''string''), (''graphqlType'', JStr ''number'')]"
       and g = "''number''" and n = 1 and name = "''stars''" and idx = 0]
    array_wraps_own_type_name
    [where ps = "[(''type'', JStr ''array''), (''items'', JObj [(''type'', JStr ''string'')]), (''required'', JBool True)]"
       and n = 2 and name = "''labels''" and idx = 0]
  by (simp add: own_def typeName_def)

text \<open>
  Claim C2 as first stated asks for the inner type to be resolved from \<open>items\<close>. For
  \<open>{ type: "array", items: { type: "string" } }\<close> the item descriptor on its own resolves
  to \<open>String\<close>, and the emitted type is \<open>[array]\<close>.
\<close>

theorem array_inner_type_counterexample:
  "own [(''type'', JStr ''array''), (''items'', JObj [(''type'', JStr ''string'')])] ''type'' = JStr ''array''
   \<and> own [(''type'', JStr ''array''), (''items'', JObj [(''type'', JStr ''string'')])] ''items'' =
       JObj [(''type'', JStr ''string'')]
   \<and> fieldCallback 1 ''item'' (JObj [(''type'', JStr ''string'')]) 0 = Inr (Some ''  item: String'')
   \<and> generateType ''Board''
         (Some [(''labels'', JObj [(''type'', JStr ''array''), (''items'', JObj [(''type'', JStr ''string'')])])]) =
       Inr (''type Board {'' @ [CHR 0x0A] @ ''  labels: [array]'' @ [CHR 0x0A] @ ''}'')"
  by code_simp

text \<open>
  Claim C5, as amended. When no entry of the field map is \<open>undefined\<close> or \<open>null\<close> and no
  descriptor carries an object as \<open>graphqlType\<close> or \<open>type\<close>, \<open>generateType\<close> returns
  normally: its text is the opening line, at most one line per entry, and the closing
  brace. An absent field map gives the two outer lines.
\<close>

theorem generateType_returns_on_descriptors:
  assumes "\<forall>field \<in> snd ` set entries. descriptorLike field"
  shows "(\<exists>lines. generateType name (Some entries) =
                   Inr (join [CHR 0x0A] ((''type '' @ name @ '' {'') # lines @ [''}'']))
                 \<and> length lines \<le> length entries)
         \<and> generateType name None = Inr (join [CHR 0x0A] [''type '' @ name @ '' {'', ''}''])"
proof -
  obtain lines where
    "forEachEntry (length entries) entries 0 [''type '' @ name @ '' {''] =
       Inr ([''type '' @ name @ '' {''] @ lines)"
    "length lines \<le> length entries"
    using forEachEntry_total [OF assms] by blast
  then have "generateType name (Some entries) =
               Inr (join [CHR 0x0A] ((''type '' @ name @ '' {'') # lines @ [''}'']))
             \<and> length lines \<le> length entries"
    by (simp add: generateType_def js_bind_Inr)
  moreover have "generateType name None = Inr (join [CHR 0x0A] [''type '' @ name @ '' {'', ''}''])"
    by (simp add: generateType_def js_bind_Inr)
  ultimately show ?thesis by blast
qed

theorem generateType_returns_on_descriptors_witness:
  "descriptorLike (JObj [(''type'', JStr ''string''), (''required'', JBool True)])
   \<and> descriptorLike (JStr ''string'')
   \<and> descriptorLike (JObj [(''type'', JStr ''array'')])
   \<and> descriptorLike (JObj [(''type'', JStr ''object'')])
   \<and> (\<exists>lines. generateType ''Board''
         (Some [(''title'', JObj [(''type'', JStr ''string''), (''required'', JBool True)]),
                (''description'', JStr ''string''),
                (''labels'', JObj [(''type'', JStr ''array'')]),
                (''options'', JObj [(''type'', JStr ''object'')])]) =
         Inr (join [CHR 0x0A] (''type Board {'' # lines @ [''}''])) \<and> length lines \<le> 4)"
  using generateType_returns_on_descriptors
    [where entries = "[(''title'', JObj [(''type'', JStr ''string''), (''required'', JBool True)]),
                (''description'', JStr ''string''),
                (''labels'', JObj [(''type'', JStr ''array'')]),
                (''options'', JObj [(''type'', JStr ''object'')])]" and name = "''Board''"]
  by (auto simp: descriptorLike_def primitive_def own_def)

text \<open>
  Claim C5 as first stated covers every field map. An entry that is \<open>null\<close> makes the
  first property read of the callback throw, and the whole call with it.
\<close>

theorem null_entry_throws_counterexample:
  "generateType ''Board'' (Some [(''title'', JNull)]) = Inl TypeError"
  by code_simp

text \<open>
  Claim C7. The separator is chosen from the index of the entry among all entries, not
  among the emitted lines: when the last entry is skipped, the last emitted line keeps its
  trailing comma.
\<close>

theorem trailing_comma_when_last_entry_skipped:
  "generateType ''Board''
     (Some [(''title'', JObj [(''type'', JStr ''string'')]), (''labels'', JObj [(''type'', JStr ''array'')])]) =
   Inr (''type Board {'' @ [CHR 0x0A] @ ''  title: String,'' @ [CHR 0x0A] @ ''}'')"
  by code_simp

section \<open>Ordering engine: properties\<close>

text \<open>
  A move into a slot with no neighbour on either side: the card action answers 1, the list
  action throws.
\<close>

lemma card_move_no_neighbour_yields_1:
  assumes "case fromIdx of None \<Rightarrow> True | Some i \<Rightarrow> i < length siblings"
    and "siblingsAfterRemoval siblings fromIdx = []"
  shows "changeCardPosition siblings (map_option int fromIdx) (Some 0) c =
           Inr \<lparr>newPosition = Some 1, rows = [Some (c\<lparr>position := 1\<rparr>)]\<rparr>"
  using changeCardPosition_valid [OF assms(1), of "[]" 0 c] assms(2)
  by (simp add: prevNeighbour_def nextNeighbour_def cardNewPosition_cases js_bind_Inr)

lemma list_move_no_neighbour_throws:
  assumes "case fromIdx of None \<Rightarrow> True | Some i \<Rightarrow> i < length siblings"
    and "siblingsAfterRemoval siblings fromIdx = []"
  shows "changeListPosition siblings (map_option int fromIdx) (Some 0) = Inl TypeError"
proof (cases fromIdx)
  case None
  with assms(2) have "siblings = []" by (simp add: siblingsAfterRemoval_def)
  with None show ?thesis
    by (simp add: changeListPosition_def splice_def actualStart_def js_index_def
        indexNumber_def listNewPosition_cases js_bind_Inl)
next
  case (Some i)
  with assms(1) have "i < length siblings" by simp
  then show ?thesis
    using changeListPosition_valid [of i siblings "[]" 0] assms(2) Some
    by (simp add: prevNeighbour_def nextNeighbour_def listNewPosition_cases js_bind_Inl)
qed

text \<open>
  Claim C3. With no neighbour on either side \<open>changeCardPosition\<close> answers position 1.
  \<open>changeListPosition\<close> has no such branch: it reads \<open>toPrev.position\<close> of \<open>undefined\<close>
  and throws, for the only list of a board dropped in place as for an empty board.
\<close>

theorem empty_container_list_move_throws:
  "changeListPosition [ent ''A'' 1] (Some 0) (Some 0) = Inl TypeError
   \<and> changeListPosition [] None (Some 0) = Inl TypeError
   \<and> changeCardPosition [ent ''A'' 1] (Some 0) (Some 0) (ent ''A'' 1) =
       Inr \<lparr>newPosition = Some 1, rows = [Some (ent ''A'' 1)]\<rparr>
   \<and> changeCardPosition [] None (Some 0) (ent ''A'' 7) =
       Inr \<lparr>newPosition = Some 1, rows = [Some (ent ''A'' 1)]\<rparr>"
  by code_simp

text \<open>
  Claim C4, as amended. \<open>changeCardPosition\<close> never throws: with \<open>toIndex\<close> \<open>null\<close> it
  computes no position and stores the remaining sequence, with any other \<open>toIndex\<close>
  (also on an empty sequence or out of range) it computes one. \<open>changeListPosition\<close>
  returns a position when \<open>fromIndex\<close> addresses a list, \<open>toIndex\<close> is a slot of the
  remaining sequence and at least one other list remains.
\<close>

theorem card_move_total_list_move_with_neighbour:
  "(\<exists>r. changeCardPosition cards fromIndex toIndex c = Inr r
         \<and> (newPosition r = None \<longleftrightarrow> toIndex = None))
   \<and> (i < length arr \<and> j < length arr \<and> 2 \<le> length arr \<longrightarrow>
        (\<exists>r p. changeListPosition arr (Some (int i)) (Some (int j)) = Inr r
               \<and> newPosition r = Some p))"
proof
  show "\<exists>r. changeCardPosition cards fromIndex toIndex c = Inr r
         \<and> (newPosition r = None \<longleftrightarrow> toIndex = None)"
  proof (cases toIndex)
    case None
    then show ?thesis by (simp add: changeCardPosition_def Let_def)
  next
    case (Some t)
    define result where "result = snd (splice (case fromIndex of None \<Rightarrow> map Some cards
       | Some f \<Rightarrow> snd (splice (map Some cards) f 1 [])) t 0 [Some c])"
    obtain p where "cardNewPosition (js_index result (t - 1)) (js_index result (t + 1)) = Inr p"
      using cardNewPosition_total by blast
    with Some show ?thesis
      by (simp add: changeCardPosition_def Let_def result_def js_bind_Inr)
  qed
next
  show "i < length arr \<and> j < length arr \<and> 2 \<le> length arr \<longrightarrow>
        (\<exists>r p. changeListPosition arr (Some (int i)) (Some (int j)) = Inr r
               \<and> newPosition r = Some p)"
  proof
    assume h: "i < length arr \<and> j < length arr \<and> 2 \<le> length arr"
    define rest where "rest = siblingsAfterRemoval arr (Some i)"
    have len: "length rest = length arr - 1"
      using h by (simp add: rest_def length_siblingsAfterRemoval)
    with h have j: "j \<le> length rest" and ne: "rest \<noteq> []" by auto
    obtain p where p: "listNewPosition (prevNeighbour rest j) (nextNeighbour rest j) = Inr p"
      using listNewPosition_total [OF neighbour_exists [OF ne j]] by blast
    show "\<exists>r p. changeListPosition arr (Some (int i)) (Some (int j)) = Inr r
               \<and> newPosition r = Some p"
      using h changeListPosition_valid [of i arr rest j] j p
      by (simp add: rest_def js_bind_Inr)
  qed
qed

theorem card_move_total_list_move_with_neighbour_witness:
  "(0::nat) < length [ent ''A'' 1, ent ''B'' 2] \<and> (1::nat) < length [ent ''A'' 1, ent ''B'' 2]
   \<and> 2 \<le> length [ent ''A'' 1, ent ''B'' 2]
   \<and> (\<exists>r p. changeListPosition [ent ''A'' 1, ent ''B'' 2] (Some 0) (Some 1) = Inr r
             \<and> newPosition r = Some p)"
  using card_move_total_list_move_with_neighbour
    [where arr = "[ent ''A'' 1, ent ''B'' 2]" and i = 0 and j = 1]
  by simp

text \<open>
  Claim C4 as first stated has an error exactly for \<open>toIndex\<close> \<open>null\<close>. Neither action
  throws there, and the list action throws for a non-null \<open>toIndex\<close> when no other list
  remains.
\<close>

theorem null_toIndex_no_error_counterexample:
  "changeCardPosition [ent ''A'' 1, ent ''B'' 2] (Some 0) None (ent ''A'' 1) =
     Inr \<lparr>newPosition = None, rows = [Some (ent ''B'' 2)]\<rparr>
   \<and> changeListPosition [ent ''A'' 1, ent ''B'' 2, ent ''C'' 3] (Some 0) None =
     Inr \<lparr>newPosition = Some 2, rows = [Some (ent ''B'' 2), Some (ent ''C'' 3)]\<rparr>
   \<and> changeListPosition [ent ''A'' 1] (Some 0) (Some 0) = Inl TypeError"
  by code_simp

text \<open>
  Claim C1, as amended. A move with \<open>fromIndex\<close> equal to \<open>toIndex\<close> leaves every
  entity in its slot and gives the moved one the value of the position formula at that
  slot, computed from the neighbours it already has. That value is the existing position
  only when the existing position already equals it. For lists this needs a second list.
\<close>

theorem noop_move_takes_own_slot_formula:
  assumes "i < length siblings"
  shows "changeCardPosition siblings (Some (int i)) (Some (int i)) c =
           Inr \<lparr>newPosition = Some (ownSlotPosition siblings i),
                rows = (map Some siblings)
                         [i := Some (c\<lparr>position := ownSlotPosition siblings i\<rparr>)]\<rparr>
         \<and> (2 \<le> length siblings \<longrightarrow>
              changeListPosition siblings (Some (int i)) (Some (int i)) =
                Inr \<lparr>newPosition = Some (ownSlotPosition siblings i),
                     rows = (map Some siblings)
                              [i := Some ((siblings ! i)\<lparr>position := ownSlotPosition siblings i\<rparr>)]\<rparr>)"
proof -
  define rest where "rest = siblingsAfterRemoval siblings (Some i)"
  have len: "length rest = length siblings - 1"
    using assms by (simp add: rest_def length_siblingsAfterRemoval)
  with assms have i: "i \<le> length rest" by simp
  have "changeCardPosition siblings (map_option int (Some i)) (Some (int i)) c =
          js_bind (cardNewPosition (prevNeighbour rest i) (nextNeighbour rest i)) (\<lambda>p.
            Inr \<lparr>newPosition = Some p,
                 rows = map Some (take i rest) @ Some (c\<lparr>position := p\<rparr>) #
                        map Some (drop i rest)\<rparr>)"
    using assms i by (intro changeCardPosition_valid) (simp_all add: rest_def)
  then have "changeCardPosition siblings (Some (int i)) (Some (int i)) c =
           Inr \<lparr>newPosition = Some (ownSlotPosition siblings i),
                rows = (map Some siblings)
                         [i := Some (c\<lparr>position := ownSlotPosition siblings i\<rparr>)]\<rparr>"
    using assms
    by (simp add: rest_def cardNewPosition_own_slot js_bind_Inr rows_own_slot)
  moreover have "2 \<le> length siblings \<longrightarrow>
              changeListPosition siblings (Some (int i)) (Some (int i)) =
                Inr \<lparr>newPosition = Some (ownSlotPosition siblings i),
                     rows = (map Some siblings)
                              [i := Some ((siblings ! i)\<lparr>position := ownSlotPosition siblings i\<rparr>)]\<rparr>"
    using assms i
    by (simp add: changeListPosition_valid [where rest = rest] rest_def
        listNewPosition_own_slot js_bind_Inr rows_own_slot)
  ultimately show ?thesis by simp
qed

theorem noop_move_takes_own_slot_formula_witness:
  "(1::nat) < length [ent ''A'' 1, ent ''B'' 2, ent ''C'' 10]
   \<and> 2 \<le> length [ent ''A'' 1, ent ''B'' 2, ent ''C'' 10]
   \<and> changeCardPosition [ent ''A'' 1, ent ''B'' 2, ent ''C'' 10] (Some 1) (Some 1) (ent ''B'' 2) =
       Inr \<lparr>newPosition = Some (11 / 2),
            rows = [Some (ent ''A'' 1), Some (ent ''B'' (11 / 2)), Some (ent ''C'' 10)]\<rparr>
   \<and> changeListPosition [ent ''A'' 1, ent ''B'' 2, ent ''C'' 10] (Some 1) (Some 1) =
       Inr \<lparr>newPosition = Some (11 / 2),
            rows = [Some (ent ''A'' 1), Some (ent ''B'' (11 / 2)), Some (ent ''C'' 10)]\<rparr>"
  using noop_move_takes_own_slot_formula
    [where siblings = "[ent ''A'' 1, ent ''B'' 2, ent ''C'' 10]" and i = 1 and c = "ent ''B'' 2"]
  by (simp add: ownSlotPosition_def ent_def)

text \<open>
  Claim C1 as first stated has the existing position returned. With neighbours at 1 and
  10, the entity at position 2 dropped in place is given their mean.
\<close>

theorem noop_move_counterexample:
  "changeCardPosition [ent ''A'' 1, ent ''B'' 2, ent ''C'' 10] (Some 1) (Some 1) (ent ''B'' 2) =
     Inr \<lparr>newPosition = Some (11 / 2),
          rows = [Some (ent ''A'' 1), Some (ent ''B'' (11 / 2)), Some (ent ''C'' 10)]\<rparr>
   \<and> changeListPosition [ent ''A'' 1, ent ''B'' 2, ent ''C'' 10] (Some 1) (Some 1) =
     Inr \<lparr>newPosition = Some (11 / 2),
          rows = [Some (ent ''A'' 1), Some (ent ''B'' (11 / 2)), Some (ent ''C'' 10)]\<rparr>
   \<and> position (ent ''B'' 2) = 2
   \<and> (11 / 2 :: real) \<noteq> 2"
  by code_simp





end
